theory Spec2Isabelle
  imports Complex_Main "HOL-Library.AList"
begin

section \<open>Data model\<close>

text \<open>
  The engine under study is \<^verbatim>\<open>run_contingency_analysis\<close> of
  \<^verbatim>\<open>src/pandapower_tools/tools.py\<close>, together with the accessor \<^verbatim>\<open>_get_network\<close>.

  A Python float is a real number or NaN (\<open>None\<close>). The only arithmetic the engine does
  on floats is the sum of the line losses, which is taken exactly here; every comparison
  of the engine is a comparison of two given values, so no rounding enters.
\<close>

type_synonym pyfloat = "real option"

text \<open>
  Exceptions: Python tells \<^verbatim>\<open>RuntimeError\<close> from every other subclass of
  \<^verbatim>\<open>Exception\<close> in the outer handlers of the engine; both carry their message
  (\<^verbatim>\<open>str(e)\<close>).
\<close>

datatype exn = RuntimeError string | OtherException string

fun str_exn :: "exn \<Rightarrow> string" where
  "str_exn (RuntimeError m) = m"
| "str_exn (OtherException m) = m"

text \<open>
  An element table is a data frame: rows in insertion order, each with its index label,
  its \<^verbatim>\<open>in_service\<close> flag and its electrical parameters.
\<close>

record element =
  in_service :: bool
  params :: "real list"

type_synonym table = "(int \<times> element) list"

record line_res =
  loading_percent :: pyfloat
  pl_mw :: pyfloat

text \<open>
  A network maps table names (\<^verbatim>\<open>"bus"\<close>, \<^verbatim>\<open>"line"\<close>, \<^verbatim>\<open>"trafo"\<close>, \<^verbatim>\<open>"gen"\<close>,
  \<^verbatim>\<open>"load"\<close>, \<^verbatim>\<open>"ext_grid"\<close>, ...) to element tables and carries the solver's result
  fields: the convergence flag, \<^verbatim>\<open>res_bus.vm_pu\<close>, the columns of \<^verbatim>\<open>res_line\<close>
  the engine reads, and \<^verbatim>\<open>res_trafo.loading_percent\<close>.
\<close>

record net =
  tables :: "(string \<times> table) list"
  converged :: bool
  res_bus :: "(int \<times> pyfloat) list"
  res_line :: "(int \<times> line_res) list"
  res_trafo :: "(int \<times> pyfloat) list"

text \<open>
  The external solver \<^verbatim>\<open>pp.runpp\<close> works on a network in place and either returns
  or raises; in both cases it leaves a network behind.
\<close>

type_synonym solver = "net \<Rightarrow> net \<times> exn option"

text \<open>
  The module's globals: the import flag and the slot \<^verbatim>\<open>_current_net\<close>.
\<close>

record session =
  PANDAPOWER_AVAILABLE :: bool
  current_net :: "net option"

text \<open>Values of the returned dictionaries.\<close>

datatype pyval = VStr string | VBool bool | VFloat pyfloat | VIndexList "int list"

type_synonym pydict = "(string \<times> pyval) list"

datatype report_val = Val pyval | Entries "pydict list"

type_synonym report = "(string \<times> report_val) list"

section \<open>Helpers of the engine\<close>

subsection \<open>Formatting\<close>

text \<open>Decimal digits of \<^verbatim>\<open>str\<close>; the digit looked up is always below 10.\<close>

fun str_nat :: "nat \<Rightarrow> string" where
  "str_nat n =
     (if n < 10 then [''0123456789'' ! n]
      else str_nat (n div 10) @ [''0123456789'' ! (n mod 10)])"

declare str_nat.simps [simp del]

definition str_int :: "int \<Rightarrow> string" where
  "str_int i = (if i < 0 then CHR ''-'' # str_nat (nat (- i)) else str_nat (nat i))"

text \<open>The f-string \<^verbatim>\<open>f"{contingency_type}_{idx}"\<close>.\<close>

definition contingency_name :: "string \<Rightarrow> int \<Rightarrow> string" where
  "contingency_name contingency_type idx = contingency_type @ ''_'' @ str_int idx"

subsection \<open>Series operations\<close>

text \<open>pandas reductions skip NaN; on an empty or all-NaN series, max and min are NaN
  and the sum is 0.0.\<close>

fun skipna :: "pyfloat list \<Rightarrow> real list" where
  "skipna [] = []"
| "skipna (None # xs) = skipna xs"
| "skipna (Some x # xs) = x # skipna xs"

definition series_max :: "pyfloat list \<Rightarrow> pyfloat" where
  "series_max xs = (case skipna xs of [] \<Rightarrow> None | y # ys \<Rightarrow> Some (fold max ys y))"

definition series_min :: "pyfloat list \<Rightarrow> pyfloat" where
  "series_min xs = (case skipna xs of [] \<Rightarrow> None | y # ys \<Rightarrow> Some (fold min ys y))"

definition series_sum :: "pyfloat list \<Rightarrow> pyfloat" where
  "series_sum xs = Some (sum_list (skipna xs))"

text \<open>Element-wise comparisons of a float with a constant; a NaN compares false.\<close>

definition flt_less :: "pyfloat \<Rightarrow> real \<Rightarrow> bool" where
  "flt_less v c = (case v of None \<Rightarrow> False | Some x \<Rightarrow> x < c)"

definition flt_greater :: "pyfloat \<Rightarrow> real \<Rightarrow> bool" where
  "flt_greater v c = (case v of None \<Rightarrow> False | Some x \<Rightarrow> x > c)"

subsection \<open>Violation checks (lines 612-620)\<close>

definition voltage_violations :: "net \<Rightarrow> int list" where
  "voltage_violations n =
     map fst (filter (\<lambda>(i, v). flt_less v 0.95 \<or> flt_greater v 1.05) (res_bus n))"

definition loading_violations :: "net \<Rightarrow> int list" where
  "loading_violations n =
     map fst (filter (\<lambda>(i, r). flt_greater (loading_percent r) 100) (res_line n))"

subsection \<open>Taking one element out of service (line 609)\<close>

text \<open>
  \<^verbatim>\<open>table.at[idx, 'in_service'] = False\<close>: every row labelled \<open>idx\<close> gets the flag;
  when no row has the label, pandas enlarges the frame by a row with that label, the flag
  and no other data.
\<close>

definition set_out_of_service :: "int \<Rightarrow> table \<Rightarrow> table" where
  "set_out_of_service idx t =
     (if idx \<in> fst ` set t
      then map (\<lambda>(i, e). if i = idx then (i, e\<lparr>in_service := False\<rparr>) else (i, e)) t
      else t @ [(idx, \<lparr>in_service = False, params = []\<rparr>)])"

text \<open>
  \<^verbatim>\<open>contingency_net[contingency_type]\<close> raises \<^verbatim>\<open>KeyError\<close> when the network has
  no entry of that name; the message of a \<^verbatim>\<open>KeyError\<close> is the quoted key. The
  entries of a network that are modelled are its element tables.
\<close>

definition disable_element :: "string \<Rightarrow> int \<Rightarrow> net \<Rightarrow> exn + net" where
  "disable_element contingency_type idx n =
     (case map_of (tables n) contingency_type of
        None \<Rightarrow> Inl (OtherException ([CHR 0x27] @ contingency_type @ [CHR 0x27]))
      | Some t \<Rightarrow>
          Inr (n\<lparr>tables := AList.update contingency_type (set_out_of_service idx t) (tables n)\<rparr>))"

subsection \<open>Result entries (lines 622-636)\<close>

definition success_entry :: "string \<Rightarrow> int \<Rightarrow> net \<Rightarrow> pydict" where
  "success_entry contingency_type idx contingency_net =
     [(''contingency'', VStr (contingency_name contingency_type idx)),
      (''converged'', VBool (converged contingency_net)),
      (''voltage_violations'', VIndexList (voltage_violations contingency_net)),
      (''loading_violations'', VIndexList (loading_violations contingency_net)),
      (''max_loading_percent'',
         VFloat (series_max (map (loading_percent \<circ> snd) (res_line contingency_net)))),
      (''min_voltage_pu'', VFloat (series_min (map snd (res_bus contingency_net)))),
      (''max_voltage_pu'', VFloat (series_max (map snd (res_bus contingency_net))))]"

definition failure_entry :: "string \<Rightarrow> int \<Rightarrow> exn \<Rightarrow> pydict" where
  "failure_entry contingency_type idx e =
     [(''contingency'', VStr (contingency_name contingency_type idx)),
      (''converged'', VBool False),
      (''error'', VStr (str_exn e))]"

section \<open>The store\<close>

text \<open>
  Networks are mutable objects. During one call the objects are the live network of
  the session (address 0) and the copies the engine takes; the store lists them by
  address. \<^verbatim>\<open>deepcopy\<close> allocates a new object, the solver and the outage write to an
  existing one. The engine only ever hands over addresses it holds a reference to, that
  is addresses below the length of the store; the lemmas about these operations carry
  that condition.
\<close>

definition deepcopy :: "net list \<Rightarrow> nat \<Rightarrow> net list \<times> nat" where
  "deepcopy h a = (h @ [h ! a], length h)"

definition runpp :: "solver \<Rightarrow> net list \<Rightarrow> nat \<Rightarrow> net list \<times> exn option" where
  "runpp sv h a = (case sv (h ! a) of (n', raised) \<Rightarrow> (h[a := n'], raised))"

section \<open>The engine\<close>

subsection \<open>The accessor (lines 88-93)\<close>

definition get_network :: "session \<Rightarrow> exn + net" where
  "get_network s =
     (case current_net s of
        None \<Rightarrow> Inl (RuntimeError
          ''No pandapower network is currently loaded. Please create or load a network first.'')
      | Some n \<Rightarrow> Inr n)"

subsection \<open>Target indices (lines 576-587)\<close>

text \<open>
  \<^verbatim>\<open>list(net.line.index)\<close>: attribute access on a network without that entry raises
  \<^verbatim>\<open>AttributeError\<close>, whose message is the attribute's name.
\<close>

definition table_index :: "net \<Rightarrow> string \<Rightarrow> exn + int list" where
  "table_index n name =
     (case map_of (tables n) name of
        None \<Rightarrow> Inl (OtherException name)
      | Some t \<Rightarrow> Inr (map fst t))"

definition error_dict :: "string \<Rightarrow> report" where
  "error_dict m = [(''status'', Val (VStr ''error'')), (''message'', Val (VStr m))]"

text \<open>
  The outcome is an exception (\<open>Inl\<close>), an early return of an error dictionary
  (\<open>Inr (Inl d)\<close>) or the index list (\<open>Inr (Inr indices)\<close>).
\<close>

definition determine_indices ::
    "net \<Rightarrow> string \<Rightarrow> int list option \<Rightarrow> exn + (report + int list)" where
  "determine_indices n contingency_type element_indices =
     (case element_indices of
        None \<Rightarrow>
          (if contingency_type = ''line'' then map_sum id Inr (table_index n ''line'')
           else if contingency_type = ''trafo'' then map_sum id Inr (table_index n ''trafo'')
           else if contingency_type = ''gen'' then map_sum id Inr (table_index n ''gen'')
           else Inr (Inl (error_dict (''Unknown contingency type: '' @ contingency_type))))
      | Some indices \<Rightarrow> Inr (Inr indices))"

subsection \<open>Base case (lines 589-599)\<close>

text \<open>
  The solve runs on the live network itself; the bare \<^verbatim>\<open>except\<close> keeps the initial
  values \<^verbatim>\<open>False\<close> and \<^verbatim>\<open>0.0\<close>.
\<close>

definition base_case :: "solver \<Rightarrow> net list \<Rightarrow> nat \<Rightarrow> net list \<times> bool \<times> pyfloat" where
  "base_case sv h a =
     (case runpp sv h a of
        (h', None) \<Rightarrow>
          (h', converged (h' ! a), series_sum (map (pl_mw \<circ> snd) (res_line (h' ! a))))
      | (h', Some e) \<Rightarrow> (h', False, Some 0))"

subsection \<open>One contingency case (lines 608-636)\<close>

text \<open>
  The body of the inner \<^verbatim>\<open>try\<close> on the copy at address \<open>c\<close>: the outage, the solve,
  the extraction; any exception gives the failure entry.
\<close>

definition contingency_case ::
    "solver \<Rightarrow> string \<Rightarrow> int \<Rightarrow> net list \<Rightarrow> nat \<Rightarrow> net list \<times> pydict" where
  "contingency_case sv contingency_type idx h c =
     (case disable_element contingency_type idx (h ! c) of
        Inl e \<Rightarrow> (h, failure_entry contingency_type idx e)
      | Inr n1 \<Rightarrow>
          (case runpp sv (h[c := n1]) c of
             (h', Some e) \<Rightarrow> (h', failure_entry contingency_type idx e)
           | (h', None) \<Rightarrow> (h', success_entry contingency_type idx (h' ! c))))"

subsection \<open>The loop (lines 604-636)\<close>

fun contingency_loop ::
    "solver \<Rightarrow> string \<Rightarrow> nat \<Rightarrow> net list \<Rightarrow> int list \<Rightarrow> pydict list \<Rightarrow> net list \<times> pydict list" where
  "contingency_loop sv contingency_type orig_net h [] results = (h, results)"
| "contingency_loop sv contingency_type orig_net h (idx # indices) results =
     (case deepcopy h orig_net of
        (h1, contingency_net) \<Rightarrow>
          (case contingency_case sv contingency_type idx h1 contingency_net of
             (h2, entry) \<Rightarrow>
               contingency_loop sv contingency_type orig_net h2 indices (results @ [entry])))"

subsection \<open>The body of the outer try (lines 574-647)\<close>

definition success_report :: "string \<Rightarrow> int list \<Rightarrow> bool \<Rightarrow> pyfloat \<Rightarrow> pydict list \<Rightarrow> report" where
  "success_report contingency_type indices base_case_converged base_losses results =
     [(''status'', Val (VStr ''success'')),
      (''message'', Val (VStr (''Contingency analysis completed for ''
           @ str_nat (length indices) @ '' '' @ contingency_type @ ''(s)''))),
      (''base_case_converged'', Val (VBool base_case_converged)),
      (''base_case_losses_mw'', Val (VFloat base_losses)),
      (''contingency_results'', Entries results)]"

text \<open>
  The steps up to the end of the loop, on the store that holds the live network at
  address 0: base case, the pristine copy \<^verbatim>\<open>orig_net\<close>, the loop.
\<close>

definition sweep ::
    "solver \<Rightarrow> net \<Rightarrow> string \<Rightarrow> int list \<Rightarrow> net list \<times> bool \<times> pyfloat \<times> pydict list" where
  "sweep sv n contingency_type indices =
     (case base_case sv [n] 0 of
        (h1, base_case_converged, base_losses) \<Rightarrow>
          (case deepcopy h1 0 of
             (h2, orig_net) \<Rightarrow>
               (case contingency_loop sv contingency_type orig_net h2 indices [] of
                  (h3, results) \<Rightarrow> (h3, base_case_converged, base_losses, results))))"

text \<open>
  After the loop the live network is solved again (line 639), outside any inner
  handler: an exception there leaves the body.
\<close>

definition analysis ::
    "solver \<Rightarrow> net \<Rightarrow> string \<Rightarrow> int list option \<Rightarrow> (exn + report) \<times> net list" where
  "analysis sv n contingency_type element_indices =
     (case determine_indices n contingency_type element_indices of
        Inl e \<Rightarrow> (Inl e, [n])
      | Inr (Inl d) \<Rightarrow> (Inr d, [n])
      | Inr (Inr indices) \<Rightarrow>
          (case sweep sv n contingency_type indices of
             (h3, base_case_converged, base_losses, results) \<Rightarrow>
               (case runpp sv h3 0 of
                  (h4, Some e) \<Rightarrow> (Inl e, h4)
                | (h4, None) \<Rightarrow>
                    (Inr (success_report contingency_type indices
                            base_case_converged base_losses results), h4))))"

subsection \<open>The outer handlers and the tool call (lines 570-574, 649-652)\<close>

fun handlers :: "exn + report \<Rightarrow> exn + report" where
  "handlers (Inl (RuntimeError m)) = Inr (error_dict m)"
| "handlers (Inl (OtherException m)) = Inr (error_dict (''Contingency analysis failed: '' @ m))"
| "handlers (Inr d) = Inr d"

text \<open>
  The result is what the call hands to its caller, a raised exception (\<open>Inl\<close>) or a
  returned dictionary (\<open>Inr\<close>), and the session afterwards: the slot still holds the
  live object, whose state is that of address 0 of the store.
\<close>

definition run_contingency_analysis ::
    "solver \<Rightarrow> session \<Rightarrow> string \<Rightarrow> int list option \<Rightarrow> (exn + report) \<times> session" where
  "run_contingency_analysis sv s contingency_type element_indices =
     (if \<not> PANDAPOWER_AVAILABLE s then (Inr (error_dict ''pandapower is not installed''), s)
      else
        (case get_network s of
           Inl e \<Rightarrow> (handlers (Inl e), s)
         | Inr n \<Rightarrow>
             (case analysis sv n contingency_type element_indices of
                (r, h) \<Rightarrow> (handlers r, s\<lparr>current_net := Some (h ! 0)\<rparr>))))"

section \<open>One iteration as a function of the pristine network\<close>

text \<open>
  What an iteration yields when its case is a copy of the network \<open>pristine\<close>: the
  case network after the iteration, and the entry appended to the results.
\<close>

definition solved_case :: "solver \<Rightarrow> string \<Rightarrow> net \<Rightarrow> int \<Rightarrow> net" where
  "solved_case sv contingency_type pristine idx =
     (case disable_element contingency_type idx pristine of
        Inl e \<Rightarrow> pristine
      | Inr n1 \<Rightarrow> fst (sv n1))"

definition case_entry :: "solver \<Rightarrow> string \<Rightarrow> net \<Rightarrow> int \<Rightarrow> pydict" where
  "case_entry sv contingency_type pristine idx =
     (case disable_element contingency_type idx pristine of
        Inl e \<Rightarrow> failure_entry contingency_type idx e
      | Inr n1 \<Rightarrow>
          (case snd (sv n1) of
             Some e \<Rightarrow> failure_entry contingency_type idx e
           | None \<Rightarrow> success_entry contingency_type idx (fst (sv n1))))"

text \<open>What the base case records for a live network \<open>n\<close>.\<close>

definition base_converged :: "solver \<Rightarrow> net \<Rightarrow> bool" where
  "base_converged sv n = (case snd (sv n) of None \<Rightarrow> converged (fst (sv n)) | Some e \<Rightarrow> False)"

definition base_loss :: "solver \<Rightarrow> net \<Rightarrow> pyfloat" where
  "base_loss sv n =
     (case snd (sv n) of
        None \<Rightarrow> series_sum (map (pl_mw \<circ> snd) (res_line (fst (sv n))))
      | Some e \<Rightarrow> Some 0)"

section \<open>An example solver and example networks\<close>

text \<open>
  A small stand-in for the external solver, used to run the engine on concrete
  networks. It raises when the network has no external grid in service, or when some
  line in service would be loaded above 200 percent (no convergence), and leaves the
  result tables empty then. Otherwise it reports, for every bus in service, the voltage
  given as the bus's first parameter; for every line in service, its own loading (first
  parameter) plus the loading of all lines out of service, and its loss (second
  parameter); for every transformer in service, its first parameter. It never touches
  an element table, and it returns only with the convergence flag set.
\<close>

definition lookup_table :: "net \<Rightarrow> string \<Rightarrow> table" where
  "lookup_table n name = (case map_of (tables n) name of None \<Rightarrow> [] | Some t \<Rightarrow> t)"

definition param :: "element \<Rightarrow> nat \<Rightarrow> pyfloat" where
  "param e k = (if k < length (params e) then Some (params e ! k) else None)"

definition shifted_loading :: "table \<Rightarrow> real" where
  "shifted_loading t =
     sum_list (skipna (map (\<lambda>(i, e). param e 0) (filter (\<lambda>(i, e). \<not> in_service e) t)))"

definition line_flows :: "table \<Rightarrow> (int \<times> line_res) list" where
  "line_flows t =
     map (\<lambda>(i, e). (i,
            if in_service e
            then \<lparr>loading_percent = map_option (\<lambda>x. x + shifted_loading t) (param e 0),
                  pl_mw = param e 1\<rparr>
            else \<lparr>loading_percent = Some 0, pl_mw = Some 0\<rparr>)) t"

definition solver_raises :: "net \<Rightarrow> exn \<Rightarrow> net \<times> exn option" where
  "solver_raises n e =
     (n\<lparr>converged := False, res_bus := [], res_line := [], res_trafo := []\<rparr>, Some e)"

definition example_solver :: solver where
  "example_solver n =
     (if filter (\<lambda>(i, e). in_service e) (lookup_table n ''ext_grid'') = []
      then solver_raises n (OtherException ''no reference bus'')
      else if filter (\<lambda>(i, r). flt_greater (loading_percent r) 200)
                (line_flows (lookup_table n ''line'')) \<noteq> []
      then solver_raises n (OtherException ''power flow did not converge'')
      else
        (n\<lparr>converged := True,
           res_bus := map (\<lambda>(i, e). (i, if in_service e then param e 0 else None))
                        (lookup_table n ''bus''),
           res_line := line_flows (lookup_table n ''line''),
           res_trafo := map (\<lambda>(i, e). (i, if in_service e then param e 0 else Some 0))
                          (lookup_table n ''trafo'')\<rparr>,
         None))"

definition in_serv :: "real list \<Rightarrow> element" where
  "in_serv ps = \<lparr>in_service = True, params = ps\<rparr>"

text \<open>
  Three buses, two lines, a transformer with index 7, an external grid at bus 0 and a
  load at bus 2; never solved so far.
\<close>

definition example_net :: net where
  "example_net =
     \<lparr>tables =
        [(''bus'', [(0, in_serv [1.05]), (1, in_serv [0.95]), (2, in_serv [0.94])]),
         (''line'', [(0, in_serv [60, 0.1]), (1, in_serv [55, 0.2])]),
         (''trafo'', [(7, in_serv [150])]),
         (''gen'', []),
         (''load'', [(0, in_serv [5])]),
         (''ext_grid'', [(0, in_serv [1])])],
      converged = False, res_bus = [], res_line = [], res_trafo = []\<rparr>"

text \<open>The same network without any external grid: the solver raises on it.\<close>

definition islanded_net :: net where
  "islanded_net = example_net\<lparr>tables := AList.update ''ext_grid'' [] (tables example_net)\<rparr>"

text \<open>
  The example network with three heavily loaded lines: the outage of line 0 or of line
  1 loads another line above 200 percent, the outage of line 2 does not.
\<close>

definition stressed_net :: net where
  "stressed_net =
     example_net\<lparr>tables := AList.update ''line''
        [(0, in_serv [150, 0.3]), (1, in_serv [60, 0.1]), (2, in_serv [30, 0.1])]
        (tables example_net)\<rparr>"

definition stressed_session :: session where
  "stressed_session = \<lparr>PANDAPOWER_AVAILABLE = True, current_net = Some stressed_net\<rparr>"

definition example_session :: session where
  "example_session = \<lparr>PANDAPOWER_AVAILABLE = True, current_net = Some example_net\<rparr>"

definition islanded_session :: session where
  "islanded_session = \<lparr>PANDAPOWER_AVAILABLE = True, current_net = Some islanded_net\<rparr>"

definition empty_session :: session where
  "empty_session = \<lparr>PANDAPOWER_AVAILABLE = True, current_net = None\<rparr>"

section \<open>Properties of the store operations and of the loop\<close>

lemma runpp_eq: "runpp sv h a = (h[a := fst (sv (h ! a))], snd (sv (h ! a)))"
  by (simp add: runpp_def split: prod.splits)

lemma contingency_case_eq:
  assumes "c < length h"
  shows "contingency_case sv ct idx h c =
           (h[c := solved_case sv ct (h ! c) idx], case_entry sv ct (h ! c) idx)"
  using assms
  by (auto simp: contingency_case_def solved_case_def case_entry_def runpp_eq
           split: sum.splits option.splits prod.splits)

text \<open>
  The loop appends one object per index to the store and one entry per index to the
  results; both are functions of the object at \<open>orig\<close> and of the index alone.
\<close>

lemma contingency_loop_eq:
  assumes "orig < length h"
  shows "contingency_loop sv ct orig h indices results =
           (h @ map (solved_case sv ct (h ! orig)) indices,
            results @ map (case_entry sv ct (h ! orig)) indices)"
  using assms
proof (induction indices arbitrary: h results)
  case Nil
  then show ?case by simp
next
  case (Cons idx indices)
  let ?h2 = "h @ [solved_case sv ct (h ! orig) idx]"
  have step: "contingency_case sv ct idx (h @ [h ! orig]) (length h) =
                (?h2, case_entry sv ct (h ! orig) idx)"
    by (simp add: contingency_case_eq)
  have "orig < length ?h2" using Cons.prems by simp
  moreover have "?h2 ! orig = h ! orig" using Cons.prems by (simp add: nth_append)
  ultimately show ?case
    using Cons.IH [of ?h2 "results @ [case_entry sv ct (h ! orig) idx]"] step
    by (simp add: deepcopy_def)
qed

lemma base_case_eq: "base_case sv [n] 0 = ([fst (sv n)], base_converged sv n, base_loss sv n)"
  by (simp add: base_case_def runpp_eq base_converged_def base_loss_def split: option.splits)

lemma sweep_eq:
  "sweep sv n ct indices =
     ([fst (sv n), fst (sv n)] @ map (solved_case sv ct (fst (sv n))) indices,
      base_converged sv n, base_loss sv n,
      map (case_entry sv ct (fst (sv n))) indices)"
  by (simp add: sweep_def base_case_eq deepcopy_def contingency_loop_eq)

lemma analysis_eq:
  assumes "determine_indices n ct ei = Inr (Inr indices)"
  shows "analysis sv n ct ei =
           ((case snd (sv (fst (sv n))) of
               Some e \<Rightarrow> Inl e
             | None \<Rightarrow> Inr (success_report ct indices (base_converged sv n) (base_loss sv n)
                          (map (case_entry sv ct (fst (sv n))) indices))),
            [fst (sv (fst (sv n))), fst (sv n)]
              @ map (solved_case sv ct (fst (sv n))) indices)"
  using assms by (simp add: analysis_def sweep_eq runpp_eq split: option.splits)

lemma determine_indices_cases:
  "determine_indices n ct ei = Inr (Inr indices) \<longleftrightarrow>
     ei = Some indices \<or>
     (ei = None \<and> ct \<in> {''line'', ''trafo'', ''gen''} \<and>
      (\<exists>t. map_of (tables n) ct = Some t \<and> indices = map fst t))"
  by (auto simp: determine_indices_def table_index_def split: option.splits)

lemma determine_indices_early_return:
  "determine_indices n ct ei = Inr (Inl d) \<Longrightarrow>
     d = error_dict (''Unknown contingency type: '' @ ct)"
  by (auto simp: determine_indices_def table_index_def split: option.splits if_splits)

lemma handlers_Inl: "\<exists>m. handlers (Inl e) = Inr (error_dict m)"
  by (cases e) auto

lemma error_dict_keys [simp]:
  "map_of (error_dict m) ''status'' = Some (Val (VStr ''error''))"
  "map_of (error_dict m) ''message'' = Some (Val (VStr m))"
  "map_of (error_dict m) ''contingency_results'' = None"
  by (simp_all add: error_dict_def)

lemma success_report_keys [simp]:
  "map_of (success_report ct indices bc bl rs) ''status'' = Some (Val (VStr ''success''))"
  "map_of (success_report ct indices bc bl rs) ''base_case_converged'' = Some (Val (VBool bc))"
  "map_of (success_report ct indices bc bl rs) ''base_case_losses_mw'' = Some (Val (VFloat bl))"
  "map_of (success_report ct indices bc bl rs) ''contingency_results'' = Some (Entries rs)"
  by (simp_all add: success_report_def)

text \<open>The value returned by the call, in the three situations of the outer try.\<close>

lemma run_unavailable:
  "\<not> PANDAPOWER_AVAILABLE s \<Longrightarrow>
     run_contingency_analysis sv s ct ei = (Inr (error_dict ''pandapower is not installed''), s)"
  by (simp add: run_contingency_analysis_def)

lemma run_no_network:
  "PANDAPOWER_AVAILABLE s \<Longrightarrow> current_net s = None \<Longrightarrow>
     run_contingency_analysis sv s ct ei =
       (Inr (error_dict
          ''No pandapower network is currently loaded. Please create or load a network first.''), s)"
  by (simp add: run_contingency_analysis_def get_network_def)

lemma run_swept:
  assumes "PANDAPOWER_AVAILABLE s" and "current_net s = Some n"
    and "determine_indices n ct ei = Inr (Inr indices)"
  shows "run_contingency_analysis sv s ct ei =
           ((case snd (sv (fst (sv n))) of
               Some e \<Rightarrow> handlers (Inl e)
             | None \<Rightarrow> Inr (success_report ct indices (base_converged sv n) (base_loss sv n)
                          (map (case_entry sv ct (fst (sv n))) indices))),
            s\<lparr>current_net := Some (fst (sv (fst (sv n))))\<rparr>)"
  using assms
  by (simp add: run_contingency_analysis_def get_network_def analysis_eq split: option.splits)

lemma run_not_swept:
  assumes "PANDAPOWER_AVAILABLE s" and "current_net s = Some n"
    and "\<forall>indices. determine_indices n ct ei \<noteq> Inr (Inr indices)"
  shows "\<exists>m. run_contingency_analysis sv s ct ei = (Inr (error_dict m), s\<lparr>current_net := Some n\<rparr>)"
proof (cases "determine_indices n ct ei")
  case (Inl e)
  then show ?thesis
    using assms(1,2) handlers_Inl [of e]
    by (auto simp: run_contingency_analysis_def get_network_def analysis_def)
next
  case (Inr r)
  then obtain d where r: "r = Inl d" using assms(3) by (cases r) auto
  have "d = error_dict (''Unknown contingency type: '' @ ct)"
    using Inr r determine_indices_early_return by blast
  then show ?thesis
    using assms(1,2) Inr r
    by (auto simp: run_contingency_analysis_def get_network_def analysis_def)
qed

text \<open>A returned dictionary with a result sequence is the report of a completed sweep
  whose final solve returned.\<close>

lemma report_returned:
  assumes "fst (run_contingency_analysis sv s ct ei) = Inr d"
    and "map_of d ''contingency_results'' = Some (Entries rs)"
  shows "\<exists>n indices. PANDAPOWER_AVAILABLE s \<and> current_net s = Some n
           \<and> determine_indices n ct ei = Inr (Inr indices)
           \<and> snd (sv (fst (sv n))) = None
           \<and> d = success_report ct indices (base_converged sv n) (base_loss sv n) rs
           \<and> rs = map (case_entry sv ct (fst (sv n))) indices"
proof -
  have av: "PANDAPOWER_AVAILABLE s"
    using assms by (cases "PANDAPOWER_AVAILABLE s") (auto simp: run_unavailable)
  obtain n where n: "current_net s = Some n"
    using assms av by (cases "current_net s") (auto simp: run_no_network)
  obtain indices where ix: "determine_indices n ct ei = Inr (Inr indices)"
  proof (cases "\<exists>indices. determine_indices n ct ei = Inr (Inr indices)")
    case True
    then show ?thesis using that by blast
  next
    case False
    then have "\<exists>m. d = error_dict m"
      using run_not_swept [OF av n, of ct ei sv] assms(1) by auto
    then show ?thesis using assms(2) by auto
  qed
  have fin: "snd (sv (fst (sv n))) = None"
  proof (cases "snd (sv (fst (sv n)))")
    case None
    then show ?thesis .
  next
    case (Some e)
    then have "\<exists>m. d = error_dict m"
      using run_swept [OF av n ix, of sv] assms(1) handlers_Inl [of e] by auto
    then show ?thesis using assms(2) by auto
  qed
  have "d = success_report ct indices (base_converged sv n) (base_loss sv n)
              (map (case_entry sv ct (fst (sv n))) indices)"
    using run_swept [OF av n ix, of sv] assms(1) fin by simp
  then show ?thesis using av n ix fin assms(2) by auto
qed

text \<open>
  When the final solve of the live network raises, the exception reaches the outer
  handlers; what the base-case handler recorded stays inside the sweep.
\<close>

lemma final_solve_raises:
  assumes "PANDAPOWER_AVAILABLE s" and "current_net s = Some n"
    and "determine_indices n ct ei = Inr (Inr indices)"
    and "snd (sv (fst (sv n))) = Some e"
  shows "fst (run_contingency_analysis sv s ct ei) = handlers (Inl e)"
  using run_swept [OF assms(1,2,3), of sv] assms(4) by simp

lemma base_case_failure_recorded:
  assumes "snd (sv n) = Some e"
  shows "snd (sweep sv n ct indices) =
           (False, Some 0, map (case_entry sv ct (fst (sv n))) indices)"
  using assms by (simp add: sweep_eq base_converged_def base_loss_def)

section \<open>Entries\<close>

lemma failure_entry_keys [simp]:
  "map_of (failure_entry ct idx e) ''contingency'' = Some (VStr (contingency_name ct idx))"
  "map_of (failure_entry ct idx e) ''converged'' = Some (VBool False)"
  "map_of (failure_entry ct idx e) ''error'' = Some (VStr (str_exn e))"
  "map_of (failure_entry ct idx e) ''voltage_violations'' = None"
  "map_of (failure_entry ct idx e) ''loading_violations'' = None"
  "map_of (failure_entry ct idx e) ''max_loading_percent'' = None"
  "map_of (failure_entry ct idx e) ''min_voltage_pu'' = None"
  "map_of (failure_entry ct idx e) ''max_voltage_pu'' = None"
  by (simp_all add: failure_entry_def)

lemma success_entry_keys [simp]:
  "map_of (success_entry ct idx m) ''contingency'' = Some (VStr (contingency_name ct idx))"
  "map_of (success_entry ct idx m) ''converged'' = Some (VBool (converged m))"
  "map_of (success_entry ct idx m) ''voltage_violations'' = Some (VIndexList (voltage_violations m))"
  "map_of (success_entry ct idx m) ''loading_violations'' = Some (VIndexList (loading_violations m))"
  "map_of (success_entry ct idx m) ''max_loading_percent'' =
     Some (VFloat (series_max (map (loading_percent \<circ> snd) (res_line m))))"
  "map_of (success_entry ct idx m) ''error'' = None"
  by (simp_all add: success_entry_def)

lemma case_entry_name [simp]:
  "map_of (case_entry sv ct p idx) ''contingency'' = Some (VStr (contingency_name ct idx))"
  by (simp add: case_entry_def split: sum.splits option.splits)

lemma case_entry_cases:
  obtains (no_table) e where "disable_element ct idx p = Inl e"
      and "case_entry sv ct p idx = failure_entry ct idx e"
    | (raised) n1 e where "disable_element ct idx p = Inr n1" and "snd (sv n1) = Some e"
      and "case_entry sv ct p idx = failure_entry ct idx e"
    | (solved) n1 where "disable_element ct idx p = Inr n1" and "snd (sv n1) = None"
      and "case_entry sv ct p idx = success_entry ct idx (fst (sv n1))"
proof (cases "disable_element ct idx p")
  case (Inl e)
  then show ?thesis using no_table by (simp add: case_entry_def)
next
  case (Inr n1)
  show ?thesis
  proof (cases "snd (sv n1)")
    case None
    then show ?thesis using Inr solved by (simp add: case_entry_def)
  next
    case (Some e)
    then show ?thesis using Inr raised by (simp add: case_entry_def)
  qed
qed

text \<open>An entry of a returned report whose flag is true comes from the success branch
  of its iteration.\<close>

lemma converged_entry:
  assumes "fst (run_contingency_analysis sv s ct ei) = Inr d"
    and "map_of d ''contingency_results'' = Some (Entries rs)"
    and "k < length rs"
    and "map_of (rs ! k) ''converged'' = Some (VBool True)"
  shows "\<exists>n indices n1 case_net. current_net s = Some n
           \<and> determine_indices n ct ei = Inr (Inr indices) \<and> k < length indices
           \<and> disable_element ct (indices ! k) (fst (sv n)) = Inr n1
           \<and> sv n1 = (case_net, None)
           \<and> rs ! k = success_entry ct (indices ! k) case_net"
proof -
  obtain n indices where n: "current_net s = Some n"
      and ix: "determine_indices n ct ei = Inr (Inr indices)"
      and rs: "rs = map (case_entry sv ct (fst (sv n))) indices"
    using report_returned [OF assms(1,2)] by blast
  have k: "k < length indices" using assms(3) rs by simp
  then have entry: "rs ! k = case_entry sv ct (fst (sv n)) (indices ! k)"
    using rs by simp
  show ?thesis
  proof (cases rule: case_entry_cases [of ct "indices ! k" "fst (sv n)" sv])
    case (no_table e)
    then show ?thesis using assms(4) entry by simp
  next
    case (raised n1 e)
    then show ?thesis using assms(4) entry by simp
  next
    case (solved n1)
    then have "sv n1 = (fst (sv n1), None)" by (simp add: prod_eq_iff)
    then have "current_net s = Some n \<and> determine_indices n ct ei = Inr (Inr indices)
        \<and> k < length indices \<and> disable_element ct (indices ! k) (fst (sv n)) = Inr n1
        \<and> sv n1 = (fst (sv n1), None)
        \<and> rs ! k = success_entry ct (indices ! k) (fst (sv n1))"
      using n ix k entry solved by simp
    then show ?thesis by blast
  qed
qed

lemma voltage_violations_iff:
  "i \<in> set (voltage_violations m) \<longleftrightarrow>
     (\<exists>v. (i, Some v) \<in> set (res_bus m) \<and> (v < 0.95 \<or> 1.05 < v))"
  by (force simp: voltage_violations_def flt_less_def flt_greater_def split: option.splits)

lemma loading_violations_iff:
  "i \<in> set (loading_violations m) \<longleftrightarrow>
     (\<exists>r x. (i, r) \<in> set (res_line m) \<and> loading_percent r = Some x \<and> 100 < x)"
  by (force simp: loading_violations_def flt_greater_def split: option.splits)

lemma flt_greater_iff: "flt_greater v c \<longleftrightarrow> (\<exists>x. v = Some x \<and> c < x)"
  by (cases v) (auto simp: flt_greater_def)

lemma loading_violations_eq:
  "loading_violations m =
     map fst (filter (\<lambda>(i, r). \<exists>x. loading_percent r = Some x \<and> 100 < x) (res_line m))"
  by (simp add: loading_violations_def flt_greater_iff)

lemma success_entry_ignores_res_trafo:
  "success_entry ct idx (m\<lparr>res_trafo := t\<rparr>) = success_entry ct idx m"
  by (simp add: success_entry_def voltage_violations_def loading_violations_def)

section \<open>The outage\<close>

lemma set_out_of_service_others:
  "filter (\<lambda>(i, e). i \<noteq> idx) (set_out_of_service idx t) = filter (\<lambda>(i, e). i \<noteq> idx) t"
proof -
  have "filter (\<lambda>(i, e). i \<noteq> idx)
          (map (\<lambda>(i, e). if i = idx then (i, e\<lparr>in_service := False\<rparr>) else (i, e)) t)
        = filter (\<lambda>(i, e). i \<noteq> idx) t"
    by (induction t) auto
  then show ?thesis by (simp add: set_out_of_service_def)
qed

lemma set_out_of_service_target:
  "(i, e) \<in> set (set_out_of_service idx t) \<Longrightarrow> i = idx \<Longrightarrow> \<not> in_service e"
  by (force simp: set_out_of_service_def split: if_splits)

lemma set_out_of_service_present: "idx \<in> fst ` set (set_out_of_service idx t)"
  by (force simp: set_out_of_service_def)

lemma disable_element_Inr:
  assumes "disable_element ct idx p = Inr n1"
  shows "\<exists>t. map_of (tables p) ct = Some t
           \<and> map_of (tables n1) ct = Some (set_out_of_service idx t)
           \<and> (\<forall>name. name \<noteq> ct \<longrightarrow> map_of (tables n1) name = map_of (tables p) name)
           \<and> map fst (tables n1) = map fst (tables p)
           \<and> converged n1 = converged p \<and> res_bus n1 = res_bus p
           \<and> res_line n1 = res_line p \<and> res_trafo n1 = res_trafo p"
proof -
  obtain t where t: "map_of (tables p) ct = Some t"
      and n1: "n1 = p\<lparr>tables := AList.update ct (set_out_of_service idx t) (tables p)\<rparr>"
    using assms by (auto simp: disable_element_def split: option.splits)
  have "ct \<in> fst ` set (tables p)"
    using t by (metis domI dom_map_of_conv_image_fst)
  then show ?thesis
    using t n1 by (simp add: update_conv' update_keys)
qed

section \<open>Running the engine on the examples\<close>

lemmas engine_defs =
  run_contingency_analysis_def get_network_def analysis_def determine_indices_def
  table_index_def sweep_def base_case_def runpp_def deepcopy_def contingency_case_def
  disable_element_def set_out_of_service_def success_entry_def failure_entry_def
  success_report_def error_dict_def contingency_name_def str_int_def str_nat.simps
  voltage_violations_def loading_violations_def series_max_def series_min_def
  series_sum_def flt_less_def flt_greater_def solved_case_def case_entry_def
  base_converged_def base_loss_def

lemmas example_defs =
  example_solver_def solver_raises_def line_flows_def shifted_loading_def param_def
  lookup_table_def in_serv_def example_net_def islanded_net_def stressed_net_def
  example_session_def islanded_session_def stressed_session_def empty_session_def

text \<open>The example solver honours the solver's contract.\<close>

lemma example_solver_keeps_tables: "tables (fst (example_solver m)) = tables m"
  by (simp add: example_solver_def solver_raises_def)

lemma example_solver_returns_converged:
  "snd (example_solver m) = None \<Longrightarrow> converged (fst (example_solver m))"
  by (simp add: example_solver_def solver_raises_def split: if_splits)

lemma example_run_line:
  "fst (run_contingency_analysis example_solver example_session ''line'' None) =
     Inr [(''status'', Val (VStr ''success'')),
          (''message'', Val (VStr ''Contingency analysis completed for 2 line(s)'')),
          (''base_case_converged'', Val (VBool True)),
          (''base_case_losses_mw'', Val (VFloat (Some 0.3))),
          (''contingency_results'', Entries
            [[(''contingency'', VStr ''line_0''), (''converged'', VBool True),
              (''voltage_violations'', VIndexList [2]),
              (''loading_violations'', VIndexList [1]),
              (''max_loading_percent'', VFloat (Some 115)),
              (''min_voltage_pu'', VFloat (Some 0.94)),
              (''max_voltage_pu'', VFloat (Some 1.05))],
             [(''contingency'', VStr ''line_1''), (''converged'', VBool True),
              (''voltage_violations'', VIndexList [2]),
              (''loading_violations'', VIndexList [0]),
              (''max_loading_percent'', VFloat (Some 115)),
              (''min_voltage_pu'', VFloat (Some 0.94)),
              (''max_voltage_pu'', VFloat (Some 1.05))]])]"
  by (simp add: engine_defs example_defs)

lemma example_run_stressed:
  "fst (run_contingency_analysis example_solver stressed_session ''line'' None) =
     Inr [(''status'', Val (VStr ''success'')),
          (''message'', Val (VStr ''Contingency analysis completed for 3 line(s)'')),
          (''base_case_converged'', Val (VBool True)),
          (''base_case_losses_mw'', Val (VFloat (Some 0.5))),
          (''contingency_results'', Entries
            [[(''contingency'', VStr ''line_0''), (''converged'', VBool False),
              (''error'', VStr ''power flow did not converge'')],
             [(''contingency'', VStr ''line_1''), (''converged'', VBool False),
              (''error'', VStr ''power flow did not converge'')],
             [(''contingency'', VStr ''line_2''), (''converged'', VBool True),
              (''voltage_violations'', VIndexList [2]),
              (''loading_violations'', VIndexList [0]),
              (''max_loading_percent'', VFloat (Some 180)),
              (''min_voltage_pu'', VFloat (Some 0.94)),
              (''max_voltage_pu'', VFloat (Some 1.05))]])]"
  by (simp add: engine_defs example_defs)

section \<open>The claims\<close>

text \<open>
  Claim C1: if the final re-solve of the live network, after the loop, fails, the call
  still returns the report with the base-case fields and the results of the loop.

  The code does otherwise. On the network without an external grid the sweep
  completes with the base-case values and one entry per line; the final solve of the
  live network (address 0 of the store) raises; the call returns the error dictionary
  of the outer handler, and no report.
\<close>

theorem final_solve_failure_discards_report:
  "snd (sweep example_solver islanded_net ''line'' [0, 1]) =
     (False, Some 0,
      [[(''contingency'', VStr ''line_0''), (''converged'', VBool False),
        (''error'', VStr ''no reference bus'')],
       [(''contingency'', VStr ''line_1''), (''converged'', VBool False),
        (''error'', VStr ''no reference bus'')]])
   \<and> snd (runpp example_solver (fst (sweep example_solver islanded_net ''line'' [0, 1])) 0) =
       Some (OtherException ''no reference bus'')
   \<and> fst (run_contingency_analysis example_solver islanded_session ''line'' None) =
       Inr [(''status'', Val (VStr ''error'')),
            (''message'', Val (VStr ''Contingency analysis failed: no reference bus''))]"
  by (simp add: engine_defs example_defs)

text \<open>
  Claim C2: every kind outside line, transformer, generator fails the whole call with
  the unsupported-kind error, whether or not an explicit index list is passed, and no
  partial report is returned.

  The code names the three kinds \<^verbatim>\<open>"line"\<close>, \<^verbatim>\<open>"trafo"\<close> and \<^verbatim>\<open>"gen"\<close>,
  and checks the kind only where the index list is omitted. With the list \<open>[0]\<close> the
  kind \<^verbatim>\<open>"breaker"\<close> passes: the call returns a report whose one entry records the
  failed table lookup. Without the list the same kind is rejected.
\<close>

theorem unknown_kind_with_indices_returns_report:
  "fst (run_contingency_analysis example_solver example_session ''breaker'' (Some [0])) =
     Inr [(''status'', Val (VStr ''success'')),
          (''message'', Val (VStr ''Contingency analysis completed for 1 breaker(s)'')),
          (''base_case_converged'', Val (VBool True)),
          (''base_case_losses_mw'', Val (VFloat (Some 0.3))),
          (''contingency_results'', Entries
            [[(''contingency'', VStr ''breaker_0''), (''converged'', VBool False),
              (''error'', VStr ([CHR 0x27] @ ''breaker'' @ [CHR 0x27]))]])]
   \<and> fst (run_contingency_analysis example_solver example_session ''breaker'' None) =
       Inr [(''status'', Val (VStr ''error'')),
            (''message'', Val (VStr ''Unknown contingency type: breaker''))]"
  by (simp add: engine_defs example_defs)

text \<open>
  Claim C3: for every converged case, the recorded loading violations contain the
  indices of both lines and transformers whose solved loading violates the bound.

  The engine reads the line results only. In the case of the outage of line 0 of the
  example network the solver returns with transformer 7 loaded at 150 percent; the
  entry's \<open>loading_violations\<close> is \<open>[1]\<close>, the overloaded line.
\<close>

theorem transformer_overload_not_recorded:
  "converged (solved_case example_solver ''line'' (fst (example_solver example_net)) 0)
   \<and> res_trafo (solved_case example_solver ''line'' (fst (example_solver example_net)) 0) =
       [(7, Some 150)]
   \<and> fst (run_contingency_analysis example_solver example_session ''line'' (Some [0])) =
       Inr [(''status'', Val (VStr ''success'')),
            (''message'', Val (VStr ''Contingency analysis completed for 1 line(s)'')),
            (''base_case_converged'', Val (VBool True)),
            (''base_case_losses_mw'', Val (VFloat (Some 0.3))),
            (''contingency_results'', Entries
              [[(''contingency'', VStr ''line_0''), (''converged'', VBool True),
                (''voltage_violations'', VIndexList [2]),
                (''loading_violations'', VIndexList [1]),
                (''max_loading_percent'', VFloat (Some 115)),
                (''min_voltage_pu'', VFloat (Some 0.94)),
                (''max_voltage_pu'', VFloat (Some 1.05))]])]"
  by (simp add: engine_defs example_defs)

text \<open>
  Claim C3, amended: for every converged case of a returned report, the recorded
  loading violations are exactly the indices of the lines whose solved loading percent
  is strictly greater than 100, in the row order of the line results, and the recorded
  maximum loading is that of the lines; the transformer results are not consulted (the
  entry is the same whatever they are).
\<close>

theorem loading_violations_lines_only:
  assumes "fst (run_contingency_analysis sv s ct ei) = Inr d"
    and "map_of d ''contingency_results'' = Some (Entries rs)"
    and "k < length rs"
    and "map_of (rs ! k) ''converged'' = Some (VBool True)"
  shows "\<exists>n indices n1 case_net. current_net s = Some n
           \<and> determine_indices n ct ei = Inr (Inr indices) \<and> k < length indices
           \<and> disable_element ct (indices ! k) (fst (sv n)) = Inr n1
           \<and> sv n1 = (case_net, None)
           \<and> map_of (rs ! k) ''loading_violations'' =
               Some (VIndexList (map fst
                 (filter (\<lambda>(i, r). \<exists>x. loading_percent r = Some x \<and> 100 < x)
                    (res_line case_net))))
           \<and> map_of (rs ! k) ''max_loading_percent'' =
               Some (VFloat (series_max (map (loading_percent \<circ> snd) (res_line case_net))))
           \<and> (\<forall>t. rs ! k = success_entry ct (indices ! k) (case_net\<lparr>res_trafo := t\<rparr>))"
proof -
  obtain n indices n1 case_net where c: "current_net s = Some n"
      "determine_indices n ct ei = Inr (Inr indices)" "k < length indices"
      "disable_element ct (indices ! k) (fst (sv n)) = Inr n1"
      "sv n1 = (case_net, None)"
      and entry: "rs ! k = success_entry ct (indices ! k) case_net"
    using converged_entry [OF assms] by blast
  have "map_of (rs ! k) ''loading_violations'' =
          Some (VIndexList (map fst
            (filter (\<lambda>(i, r). \<exists>x. loading_percent r = Some x \<and> 100 < x)
               (res_line case_net))))"
    using entry by (simp add: loading_violations_eq)
  moreover have "map_of (rs ! k) ''max_loading_percent'' =
          Some (VFloat (series_max (map (loading_percent \<circ> snd) (res_line case_net))))"
    using entry by simp
  moreover have "\<forall>t. rs ! k = success_entry ct (indices ! k) (case_net\<lparr>res_trafo := t\<rparr>)"
    using entry by (simp add: success_entry_ignores_res_trafo)
  ultimately show ?thesis using c by blast
qed

theorem loading_violations_lines_only_witness:
  "\<exists>d rs. fst (run_contingency_analysis example_solver stressed_session ''line'' None) = Inr d
     \<and> map_of d ''contingency_results'' = Some (Entries rs)
     \<and> 2 < length rs
     \<and> map_of (rs ! 2) ''converged'' = Some (VBool True)
     \<and> (\<exists>n indices n1 case_net. current_net stressed_session = Some n
           \<and> determine_indices n ''line'' None = Inr (Inr indices) \<and> 2 < length indices
           \<and> disable_element ''line'' (indices ! 2) (fst (example_solver n)) = Inr n1
           \<and> example_solver n1 = (case_net, None)
           \<and> map_of (rs ! 2) ''loading_violations'' =
               Some (VIndexList (map fst
                 (filter (\<lambda>(i, r). \<exists>x. loading_percent r = Some x \<and> 100 < x)
                    (res_line case_net))))
           \<and> map_of (rs ! 2) ''max_loading_percent'' =
               Some (VFloat (series_max (map (loading_percent \<circ> snd) (res_line case_net))))
           \<and> (\<forall>t. rs ! 2 = success_entry ''line'' (indices ! 2) (case_net\<lparr>res_trafo := t\<rparr>)))"
proof -
  let ?rs = "[[(''contingency'', VStr ''line_0''), (''converged'', VBool False),
              (''error'', VStr ''power flow did not converge'')],
             [(''contingency'', VStr ''line_1''), (''converged'', VBool False),
              (''error'', VStr ''power flow did not converge'')],
             [(''contingency'', VStr ''line_2''), (''converged'', VBool True),
              (''voltage_violations'', VIndexList [2]),
              (''loading_violations'', VIndexList [0]),
              (''max_loading_percent'', VFloat (Some 180)),
              (''min_voltage_pu'', VFloat (Some 0.94)),
              (''max_voltage_pu'', VFloat (Some 1.05))]]"
  let ?d = "success_report ''line'' [0, 1, 2] True (Some 0.5) ?rs"
  have run: "fst (run_contingency_analysis example_solver stressed_session ''line'' None) = Inr ?d"
    using example_run_stressed by (simp add: success_report_def str_nat.simps)
  have res: "map_of ?d ''contingency_results'' = Some (Entries ?rs)" by simp
  have k: "2 < length ?rs" by simp
  have conv: "map_of (?rs ! 2) ''converged'' = Some (VBool True)" by simp
  show ?thesis
    using loading_violations_lines_only [OF run res k conv] run res k conv by blast
qed

text \<open>
  Claim C4: for every converged case, a bus index is recorded as a voltage violation
  exactly when its solved voltage magnitude is strictly below 0.95 or strictly above
  1.05, and a line index is recorded as a loading violation exactly when its solved
  loading percent is strictly greater than 100; the values are compared as they are.

  Here \<open>case_net\<close> is the network of the case as the solver left it: the pristine
  network with the element of index \<open>indices ! k\<close> taken out, solved. A NaN is neither
  below nor above a bound.
\<close>

theorem violation_thresholds_strict:
  assumes "fst (run_contingency_analysis sv s ct ei) = Inr d"
    and "map_of d ''contingency_results'' = Some (Entries rs)"
    and "k < length rs"
    and "map_of (rs ! k) ''converged'' = Some (VBool True)"
  shows "\<exists>n indices n1 case_net vv lv. current_net s = Some n
           \<and> determine_indices n ct ei = Inr (Inr indices) \<and> k < length indices
           \<and> disable_element ct (indices ! k) (fst (sv n)) = Inr n1
           \<and> sv n1 = (case_net, None)
           \<and> map_of (rs ! k) ''voltage_violations'' = Some (VIndexList vv)
           \<and> map_of (rs ! k) ''loading_violations'' = Some (VIndexList lv)
           \<and> (\<forall>i. i \<in> set vv \<longleftrightarrow>
                 (\<exists>v. (i, Some v) \<in> set (res_bus case_net) \<and> (v < 0.95 \<or> 1.05 < v)))
           \<and> (\<forall>i. i \<in> set lv \<longleftrightarrow>
                 (\<exists>r x. (i, r) \<in> set (res_line case_net)
                    \<and> loading_percent r = Some x \<and> 100 < x))"
proof -
  obtain n indices n1 case_net where c: "current_net s = Some n"
      "determine_indices n ct ei = Inr (Inr indices)" "k < length indices"
      "disable_element ct (indices ! k) (fst (sv n)) = Inr n1"
      "sv n1 = (case_net, None)"
      and entry: "rs ! k = success_entry ct (indices ! k) case_net"
    using converged_entry [OF assms] by blast
  have "map_of (rs ! k) ''voltage_violations'' = Some (VIndexList (voltage_violations case_net))"
    and "map_of (rs ! k) ''loading_violations'' = Some (VIndexList (loading_violations case_net))"
    using entry by simp_all
  then show ?thesis
    using c voltage_violations_iff [of _ case_net] loading_violations_iff [of _ case_net]
    by blast
qed

theorem violation_thresholds_strict_witness:
  "\<exists>d rs. fst (run_contingency_analysis example_solver example_session ''line'' None) = Inr d
     \<and> map_of d ''contingency_results'' = Some (Entries rs)
     \<and> 0 < length rs
     \<and> map_of (rs ! 0) ''converged'' = Some (VBool True)
     \<and> (\<exists>n indices n1 case_net vv lv. current_net example_session = Some n
           \<and> determine_indices n ''line'' None = Inr (Inr indices) \<and> 0 < length indices
           \<and> disable_element ''line'' (indices ! 0) (fst (example_solver n)) = Inr n1
           \<and> example_solver n1 = (case_net, None)
           \<and> map_of (rs ! 0) ''voltage_violations'' = Some (VIndexList vv)
           \<and> map_of (rs ! 0) ''loading_violations'' = Some (VIndexList lv)
           \<and> (\<forall>i. i \<in> set vv \<longleftrightarrow>
                 (\<exists>v. (i, Some v) \<in> set (res_bus case_net) \<and> (v < 0.95 \<or> 1.05 < v)))
           \<and> (\<forall>i. i \<in> set lv \<longleftrightarrow>
                 (\<exists>r x. (i, r) \<in> set (res_line case_net)
                    \<and> loading_percent r = Some x \<and> 100 < x)))"
proof -
  let ?rs = "[[(''contingency'', VStr ''line_0''), (''converged'', VBool True),
              (''voltage_violations'', VIndexList [2]),
              (''loading_violations'', VIndexList [1]),
              (''max_loading_percent'', VFloat (Some 115)),
              (''min_voltage_pu'', VFloat (Some 0.94)),
              (''max_voltage_pu'', VFloat (Some 1.05))],
             [(''contingency'', VStr ''line_1''), (''converged'', VBool True),
              (''voltage_violations'', VIndexList [2]),
              (''loading_violations'', VIndexList [0]),
              (''max_loading_percent'', VFloat (Some 115)),
              (''min_voltage_pu'', VFloat (Some 0.94)),
              (''max_voltage_pu'', VFloat (Some 1.05))]]"
  let ?d = "success_report ''line'' [0, 1] True (Some 0.3) ?rs"
  have run: "fst (run_contingency_analysis example_solver example_session ''line'' None) = Inr ?d"
    using example_run_line by (simp add: success_report_def str_nat.simps)
  have res: "map_of ?d ''contingency_results'' = Some (Entries ?rs)" by simp
  have k: "0 < length ?rs" by simp
  have conv: "map_of (?rs ! 0) ''converged'' = Some (VBool True)" by simp
  show ?thesis
    using violation_thresholds_strict [OF run res k conv] run res k conv by blast
qed

text \<open>
  Claim C5: the returned result sequence has exactly one entry per target index (all
  indices of the collection when the list is omitted, the passed list otherwise), in
  the order of that list, each named by the kind, an underscore and the index; with the
  empty list the sequence is empty and the base case is still computed.

  A report is returned when the final solve of the live network returns; the statement
  is about every returned report. The base-case fields of the report are the outcome of
  solving the live network \<open>n\<close>.
\<close>

theorem one_entry_per_target_index:
  assumes "current_net s = Some n"
    and "ei = Some indices \<or>
         (ei = None \<and> ct \<in> {''line'', ''trafo'', ''gen''}
          \<and> map_of (tables n) ct = Some t \<and> indices = map fst t)"
    and "fst (run_contingency_analysis sv s ct ei) = Inr d"
    and "map_of d ''status'' = Some (Val (VStr ''success''))"
  shows "\<exists>rs. map_of d ''contingency_results'' = Some (Entries rs)
           \<and> length rs = length indices
           \<and> (\<forall>k<length indices.
                 map_of (rs ! k) ''contingency'' = Some (VStr (ct @ ''_'' @ str_int (indices ! k))))
           \<and> (indices = [] \<longrightarrow> rs = [])
           \<and> map_of d ''base_case_converged'' = Some (Val (VBool (base_converged sv n)))
           \<and> map_of d ''base_case_losses_mw'' = Some (Val (VFloat (base_loss sv n)))"
proof -
  have ix: "determine_indices n ct ei = Inr (Inr indices)"
    using assms(2) by (simp only: determine_indices_cases) blast
  have av: "PANDAPOWER_AVAILABLE s"
    using assms(3,4) by (cases "PANDAPOWER_AVAILABLE s") (auto simp: run_unavailable)
  have fin: "snd (sv (fst (sv n))) = None"
  proof (cases "snd (sv (fst (sv n)))")
    case None
    then show ?thesis .
  next
    case (Some e)
    then have "\<exists>m. d = error_dict m"
      using run_swept [OF av assms(1) ix, of sv] assms(3) handlers_Inl [of e] by auto
    then show ?thesis using assms(4) by auto
  qed
  let ?rs = "map (case_entry sv ct (fst (sv n))) indices"
  have d: "d = success_report ct indices (base_converged sv n) (base_loss sv n) ?rs"
    using run_swept [OF av assms(1) ix, of sv] assms(3) fin by simp
  have "\<forall>k<length indices.
          map_of (?rs ! k) ''contingency'' = Some (VStr (ct @ ''_'' @ str_int (indices ! k)))"
    by (simp add: contingency_name_def)
  then show ?thesis using d by auto
qed

theorem one_entry_per_target_index_witness:
  "\<exists>d. current_net example_session = Some example_net
     \<and> map_of (tables example_net) ''line'' = Some [(0, in_serv [60, 0.1]), (1, in_serv [55, 0.2])]
     \<and> fst (run_contingency_analysis example_solver example_session ''line'' None) = Inr d
     \<and> map_of d ''status'' = Some (Val (VStr ''success''))
     \<and> (\<exists>rs. map_of d ''contingency_results'' = Some (Entries rs)
           \<and> length rs = 2
           \<and> map_of (rs ! 0) ''contingency'' = Some (VStr ''line_0'')
           \<and> map_of (rs ! 1) ''contingency'' = Some (VStr ''line_1'')
           \<and> map_of d ''base_case_converged'' =
               Some (Val (VBool (base_converged example_solver example_net)))
           \<and> map_of d ''base_case_losses_mw'' =
               Some (Val (VFloat (base_loss example_solver example_net))))"
proof -
  let ?t = "[(0, in_serv [60, 0.1]), (1, in_serv [55, 0.2])] :: table"
  let ?d = "projr (fst (run_contingency_analysis example_solver example_session ''line'' None))"
  have n: "current_net example_session = Some example_net"
    by (simp add: example_session_def)
  have t: "map_of (tables example_net) ''line'' = Some ?t"
    by (simp add: example_net_def)
  have ix: "(None :: int list option) = Some (map fst ?t) \<or>
            ((None :: int list option) = None \<and> ''line'' \<in> {''line'', ''trafo'', ''gen''}
             \<and> map_of (tables example_net) ''line'' = Some ?t \<and> map fst ?t = map fst ?t)"
    using t by simp
  have run: "fst (run_contingency_analysis example_solver example_session ''line'' None) = Inr ?d"
    using example_run_line by simp
  have st: "map_of ?d ''status'' = Some (Val (VStr ''success''))"
    using example_run_line by simp
  have names: "''line'' @ ''_'' @ str_int 0 = ''line_0''" "''line'' @ ''_'' @ str_int 1 = ''line_1''"
    by (simp_all add: str_int_def str_nat.simps)
  show ?thesis
    using one_entry_per_target_index [OF n ix run st] n t run st names
    by (auto simp: less_Suc_eq numeral_2_eq_2)
qed

text \<open>
  Claim C6: if the base-case solve raises, the returned report records
  \<open>base_case_converged = false\<close> and \<open>base_case_losses_mw = 0.0\<close>, and every
  iteration still runs.

  The handler of the base case does record these values and the loop does run, but a
  network on which the solver raises makes the final solve raise as well: the recorded
  values never reach the caller. On the network without an external grid, with the
  explicit index list \<open>[1]\<close>: the base-case solve raises, the sweep holds
  \<open>False\<close>, \<open>0.0\<close> and the entry of line 1, and the call returns the error
  dictionary.
\<close>

theorem base_case_failure_report_lost:
  "snd (example_solver islanded_net) = Some (OtherException ''no reference bus'')
   \<and> snd (sweep example_solver islanded_net ''line'' [1]) =
       (False, Some 0,
        [[(''contingency'', VStr ''line_1''), (''converged'', VBool False),
          (''error'', VStr ''no reference bus'')]])
   \<and> fst (run_contingency_analysis example_solver islanded_session ''line'' (Some [1])) =
       Inr [(''status'', Val (VStr ''error'')),
            (''message'', Val (VStr ''Contingency analysis failed: no reference bus''))]"
  by (simp add: engine_defs example_defs)

text \<open>
  Claim C7: every entry of the returned report whose converged flag is false carries an
  error message and has no violation lists and no extrema; and a solver error on one
  case never prevents the remaining target indices from being processed.

  The solver is assumed to keep its contract: it returns only with the convergence
  flag set, and raises otherwise. Every entry is what its own iteration yields from the
  pristine network and its index, whatever happened in the other iterations.
\<close>

theorem failed_entries_carry_error_only:
  assumes "\<And>m. snd (sv m) = None \<Longrightarrow> converged (fst (sv m))"
    and "fst (run_contingency_analysis sv s ct ei) = Inr d"
    and "map_of d ''contingency_results'' = Some (Entries rs)"
  shows "\<exists>n indices. current_net s = Some n
           \<and> determine_indices n ct ei = Inr (Inr indices)
           \<and> length rs = length indices
           \<and> (\<forall>k<length indices.
                 rs ! k = case_entry sv ct (fst (sv n)) (indices ! k)
                 \<and> (map_of (rs ! k) ''converged'' = Some (VBool False) \<longrightarrow>
                      (\<exists>m. map_of (rs ! k) ''error'' = Some (VStr m))
                      \<and> map_of (rs ! k) ''voltage_violations'' = None
                      \<and> map_of (rs ! k) ''loading_violations'' = None
                      \<and> map_of (rs ! k) ''max_loading_percent'' = None
                      \<and> map_of (rs ! k) ''min_voltage_pu'' = None
                      \<and> map_of (rs ! k) ''max_voltage_pu'' = None))"
proof -
  obtain n indices where n: "current_net s = Some n"
      and ix: "determine_indices n ct ei = Inr (Inr indices)"
      and rs: "rs = map (case_entry sv ct (fst (sv n))) indices"
    using report_returned [OF assms(2,3)] by blast
  have "rs ! k = case_entry sv ct (fst (sv n)) (indices ! k)
        \<and> (map_of (rs ! k) ''converged'' = Some (VBool False) \<longrightarrow>
             (\<exists>m. map_of (rs ! k) ''error'' = Some (VStr m))
             \<and> map_of (rs ! k) ''voltage_violations'' = None
             \<and> map_of (rs ! k) ''loading_violations'' = None
             \<and> map_of (rs ! k) ''max_loading_percent'' = None
             \<and> map_of (rs ! k) ''min_voltage_pu'' = None
             \<and> map_of (rs ! k) ''max_voltage_pu'' = None)"
    if k: "k < length indices" for k
  proof -
    have entry: "rs ! k = case_entry sv ct (fst (sv n)) (indices ! k)"
      using rs k by simp
    show ?thesis
    proof (cases rule: case_entry_cases [of ct "indices ! k" "fst (sv n)" sv])
      case (no_table e)
      then show ?thesis using entry by simp
    next
      case (raised n1 e)
      then show ?thesis using entry by simp
    next
      case (solved n1)
      then have "converged (fst (sv n1))" using assms(1) by blast
      then show ?thesis using entry solved by simp
    qed
  qed
  then show ?thesis using n ix rs by auto
qed

theorem failed_entries_carry_error_only_witness:
  "(\<exists>d rs. fst (run_contingency_analysis example_solver stressed_session ''line'' None) = Inr d
         \<and> map_of d ''contingency_results'' = Some (Entries rs)
         \<and> length rs = 3
         \<and> map_of (rs ! 0) ''converged'' = Some (VBool False)
         \<and> map_of (rs ! 0) ''error'' = Some (VStr ''power flow did not converge'')
         \<and> map_of (rs ! 2) ''converged'' = Some (VBool True)
         \<and> (\<exists>n indices. current_net stressed_session = Some n
               \<and> determine_indices n ''line'' None = Inr (Inr indices)
               \<and> length rs = length indices
               \<and> (\<forall>k<length indices.
                     rs ! k = case_entry example_solver ''line'' (fst (example_solver n)) (indices ! k)
                     \<and> (map_of (rs ! k) ''converged'' = Some (VBool False) \<longrightarrow>
                          (\<exists>m. map_of (rs ! k) ''error'' = Some (VStr m))
                          \<and> map_of (rs ! k) ''voltage_violations'' = None
                          \<and> map_of (rs ! k) ''loading_violations'' = None
                          \<and> map_of (rs ! k) ''max_loading_percent'' = None
                          \<and> map_of (rs ! k) ''min_voltage_pu'' = None
                          \<and> map_of (rs ! k) ''max_voltage_pu'' = None))))"
proof -
  let ?rs = "[[(''contingency'', VStr ''line_0''), (''converged'', VBool False),
              (''error'', VStr ''power flow did not converge'')],
             [(''contingency'', VStr ''line_1''), (''converged'', VBool False),
              (''error'', VStr ''power flow did not converge'')],
             [(''contingency'', VStr ''line_2''), (''converged'', VBool True),
              (''voltage_violations'', VIndexList [2]),
              (''loading_violations'', VIndexList [0]),
              (''max_loading_percent'', VFloat (Some 180)),
              (''min_voltage_pu'', VFloat (Some 0.94)),
              (''max_voltage_pu'', VFloat (Some 1.05))]]"
  let ?d = "success_report ''line'' [0, 1, 2] True (Some 0.5) ?rs"
  have contract: "\<And>m. snd (example_solver m) = None \<Longrightarrow> converged (fst (example_solver m))"
    by (rule example_solver_returns_converged)
  have run: "fst (run_contingency_analysis example_solver stressed_session ''line'' None) = Inr ?d"
    using example_run_stressed by (simp add: success_report_def str_nat.simps)
  have res: "map_of ?d ''contingency_results'' = Some (Entries ?rs)" by simp
  have "length ?rs = 3" "map_of (?rs ! 0) ''converged'' = Some (VBool False)"
    "map_of (?rs ! 0) ''error'' = Some (VStr ''power flow did not converge'')"
    "map_of (?rs ! 2) ''converged'' = Some (VBool True)"
    by simp_all
  then show ?thesis
    using failed_entries_carry_error_only [OF contract run res] run res by blast
qed

text \<open>
  Claim C8: in every iteration of the loop the case network is a fresh copy of the one
  pristine copy taken after the base-case solve, never of the previous case, so that
  one element is taken out in each case and outages never compound; neither the
  pristine copy nor the live network is changed by an iteration.

  The loop starts on the store that holds the live network, as the base-case solve
  left it, at address 0 and its copy at address 1. After the loop both are as before;
  each index has added one object, which is the pristine network with that index taken
  out of the table \<open>ct\<close> and then solved; the rows of other labels and the other tables
  of the case are those of the pristine network.
\<close>

theorem cases_are_copies_of_pristine:
  assumes "sweep sv n ct indices = (h, bc, bl, results)"
    and "live = fst (sv n)"
  shows "contingency_loop sv ct 1 [live, live] indices [] = (h, results)
       \<and> length h = 2 + length indices
       \<and> h ! 0 = live \<and> h ! 1 = live
       \<and> (\<forall>k<length indices.
            h ! (2 + k) = solved_case sv ct live (indices ! k)
          \<and> results ! k = case_entry sv ct live (indices ! k)
          \<and> (\<forall>n1. disable_element ct (indices ! k) live = Inr n1 \<longrightarrow>
                h ! (2 + k) = fst (sv n1)
              \<and> (\<forall>name. name \<noteq> ct \<longrightarrow> map_of (tables n1) name = map_of (tables live) name)
              \<and> (\<exists>t. map_of (tables live) ct = Some t
                    \<and> map_of (tables n1) ct = Some (set_out_of_service (indices ! k) t)
                    \<and> filter (\<lambda>(i, e). i \<noteq> indices ! k) (set_out_of_service (indices ! k) t)
                        = filter (\<lambda>(i, e). i \<noteq> indices ! k) t
                    \<and> (\<forall>(i, e) \<in> set (set_out_of_service (indices ! k) t).
                          i = indices ! k \<longrightarrow> \<not> in_service e))))"
proof -
  have h: "h = [live, live] @ map (solved_case sv ct live) indices"
    and results: "results = map (case_entry sv ct live) indices"
    using assms by (simp_all add: sweep_eq)
  have loop: "contingency_loop sv ct 1 [live, live] indices [] = (h, results)"
    using h results by (simp add: contingency_loop_eq)
  have "h ! (2 + k) = solved_case sv ct live (indices ! k)
      \<and> results ! k = case_entry sv ct live (indices ! k)
      \<and> (\<forall>n1. disable_element ct (indices ! k) live = Inr n1 \<longrightarrow>
            h ! (2 + k) = fst (sv n1)
          \<and> (\<forall>name. name \<noteq> ct \<longrightarrow> map_of (tables n1) name = map_of (tables live) name)
          \<and> (\<exists>t. map_of (tables live) ct = Some t
                \<and> map_of (tables n1) ct = Some (set_out_of_service (indices ! k) t)
                \<and> filter (\<lambda>(i, e). i \<noteq> indices ! k) (set_out_of_service (indices ! k) t)
                    = filter (\<lambda>(i, e). i \<noteq> indices ! k) t
                \<and> (\<forall>(i, e) \<in> set (set_out_of_service (indices ! k) t).
                      i = indices ! k \<longrightarrow> \<not> in_service e)))"
    if k: "k < length indices" for k
  proof -
    have hk: "h ! (2 + k) = solved_case sv ct live (indices ! k)"
      using h k by (simp add: nth_append)
    have rk: "results ! k = case_entry sv ct live (indices ! k)"
      using results k by simp
    have "h ! (2 + k) = fst (sv n1)
          \<and> (\<forall>name. name \<noteq> ct \<longrightarrow> map_of (tables n1) name = map_of (tables live) name)
          \<and> (\<exists>t. map_of (tables live) ct = Some t
                \<and> map_of (tables n1) ct = Some (set_out_of_service (indices ! k) t)
                \<and> filter (\<lambda>(i, e). i \<noteq> indices ! k) (set_out_of_service (indices ! k) t)
                    = filter (\<lambda>(i, e). i \<noteq> indices ! k) t
                \<and> (\<forall>(i, e) \<in> set (set_out_of_service (indices ! k) t).
                      i = indices ! k \<longrightarrow> \<not> in_service e))"
      if d: "disable_element ct (indices ! k) live = Inr n1" for n1
    proof -
      have "h ! (2 + k) = fst (sv n1)"
        using hk d by (simp add: solved_case_def)
      moreover obtain t where "map_of (tables live) ct = Some t"
          "map_of (tables n1) ct = Some (set_out_of_service (indices ! k) t)"
          "\<forall>name. name \<noteq> ct \<longrightarrow> map_of (tables n1) name = map_of (tables live) name"
        using disable_element_Inr [OF d] by blast
      moreover have "\<forall>(i, e) \<in> set (set_out_of_service (indices ! k) t).
                       i = indices ! k \<longrightarrow> \<not> in_service e" for t
        using set_out_of_service_target by blast
      ultimately show ?thesis
        using set_out_of_service_others by blast
    qed
    then show ?thesis using hk rk by blast
  qed
  then show ?thesis using loop h by simp
qed

theorem cases_are_copies_of_pristine_witness:
  "sweep example_solver example_net ''line'' [0, 1] =
     (fst (sweep example_solver example_net ''line'' [0, 1]),
      base_converged example_solver example_net, base_loss example_solver example_net,
      map (case_entry example_solver ''line'' (fst (example_solver example_net))) [0, 1])
   \<and> contingency_loop example_solver ''line'' 1
         [fst (example_solver example_net), fst (example_solver example_net)] [0, 1] [] =
       (fst (sweep example_solver example_net ''line'' [0, 1]),
        map (case_entry example_solver ''line'' (fst (example_solver example_net))) [0, 1])
   \<and> length (fst (sweep example_solver example_net ''line'' [0, 1])) = 4
   \<and> fst (sweep example_solver example_net ''line'' [0, 1]) ! 0 = fst (example_solver example_net)
   \<and> fst (sweep example_solver example_net ''line'' [0, 1]) ! 1 = fst (example_solver example_net)
   \<and> map_of (tables (fst (example_solver example_net))) ''line'' =
       Some [(0, in_serv [60, 0.1]), (1, in_serv [55, 0.2])]
   \<and> map_of (tables (fst (sweep example_solver example_net ''line'' [0, 1]) ! 2)) ''line'' =
       Some [(0, \<lparr>in_service = False, params = [60, 0.1]\<rparr>), (1, in_serv [55, 0.2])]
   \<and> map_of (tables (fst (sweep example_solver example_net ''line'' [0, 1]) ! 3)) ''line'' =
       Some [(0, in_serv [60, 0.1]), (1, \<lparr>in_service = False, params = [55, 0.2]\<rparr>)]"
proof -
  let ?live = "fst (example_solver example_net)"
  let ?h = "fst (sweep example_solver example_net ''line'' [0, 1])"
  let ?rs = "map (case_entry example_solver ''line'' ?live) [0, 1]"
  have sw: "sweep example_solver example_net ''line'' [0, 1] =
              (?h, base_converged example_solver example_net,
               base_loss example_solver example_net, ?rs)"
    by (simp add: sweep_eq)
  have live: "?live = fst (example_solver example_net)" by simp
  note main = cases_are_copies_of_pristine [OF sw live]
  have loop: "contingency_loop example_solver ''line'' 1 [?live, ?live] [0, 1] [] = (?h, ?rs)"
    using main by (rule conjunct1)
  have len: "length ?h = 4"
    using main [THEN conjunct2, THEN conjunct1] by simp
  have h0: "?h ! 0 = ?live"
    using main [THEN conjunct2, THEN conjunct2, THEN conjunct1] .
  have h1: "?h ! 1 = ?live"
    using main [THEN conjunct2, THEN conjunct2, THEN conjunct2, THEN conjunct1] .
  note each = main [THEN conjunct2, THEN conjunct2, THEN conjunct2, THEN conjunct2, rule_format]
  have t: "map_of (tables ?live) ''line'' = Some [(0, in_serv [60, 0.1]), (1, in_serv [55, 0.2])]"
    by (simp add: example_solver_keeps_tables example_net_def)
  have d0: "disable_element ''line'' 0 ?live =
              Inr (?live\<lparr>tables := AList.update ''line''
                     (set_out_of_service 0 [(0, in_serv [60, 0.1]), (1, in_serv [55, 0.2])])
                     (tables ?live)\<rparr>)"
    using t by (simp add: disable_element_def)
  have d1: "disable_element ''line'' 1 ?live =
              Inr (?live\<lparr>tables := AList.update ''line''
                     (set_out_of_service 1 [(0, in_serv [60, 0.1]), (1, in_serv [55, 0.2])])
                     (tables ?live)\<rparr>)"
    using t by (simp add: disable_element_def)
  have k0: "?h ! (2 + 0) = solved_case example_solver ''line'' ?live ([0, 1] ! 0)"
    using each [of 0, THEN conjunct1] by simp
  have k1: "?h ! (2 + 1) = solved_case example_solver ''line'' ?live ([0, 1] ! 1)"
    using each [of 1, THEN conjunct1] by simp
  have h2: "map_of (tables (?h ! 2)) ''line'' =
         Some [(0, \<lparr>in_service = False, params = [60, 0.1]\<rparr>), (1, in_serv [55, 0.2])]"
    using k0 d0
    by (simp add: solved_case_def example_solver_keeps_tables update_conv'
          set_out_of_service_def in_serv_def)
  have h3: "map_of (tables (?h ! 3)) ''line'' =
         Some [(0, in_serv [60, 0.1]), (1, \<lparr>in_service = False, params = [55, 0.2]\<rparr>)]"
    using k1 d1
    by (simp add: solved_case_def example_solver_keeps_tables update_conv'
          set_out_of_service_def in_serv_def)
  show ?thesis
    using sw loop len h0 h1 t h2 h3 by (intro conjI)
qed

text \<open>
  Claim C9: after every call that returns, the topology of the active network, its
  element counts and every element's \<open>in_service\<close> flag, is what it was before the
  call; only solver result fields may differ.

  The solver is assumed to keep its contract of writing result fields only: it leaves
  the element tables of the network it is given as they are. The element tables of the
  active network (rows, labels, flags, parameters) and the globals of the module are
  then the same after the call, whatever it returns.
\<close>

theorem topology_preserved:
  assumes "\<And>m. tables (fst (sv m)) = tables m"
  shows "map_option tables (current_net (snd (run_contingency_analysis sv s ct ei)))
           = map_option tables (current_net s)
       \<and> (current_net (snd (run_contingency_analysis sv s ct ei)) = None
            \<longleftrightarrow> current_net s = None)
       \<and> PANDAPOWER_AVAILABLE (snd (run_contingency_analysis sv s ct ei))
           = PANDAPOWER_AVAILABLE s"
proof (cases "PANDAPOWER_AVAILABLE s")
  case False
  then show ?thesis by (simp add: run_unavailable)
next
  case av: True
  show ?thesis
  proof (cases "current_net s")
    case None
    then show ?thesis using av by (simp add: run_no_network)
  next
    case (Some n)
    show ?thesis
    proof (cases "\<exists>indices. determine_indices n ct ei = Inr (Inr indices)")
      case True
      then obtain indices where "determine_indices n ct ei = Inr (Inr indices)" by blast
      then show ?thesis
        using run_swept [OF av Some, of ct ei indices sv] assms Some by simp
    next
      case False
      then show ?thesis
        using run_not_swept [OF av Some, of ct ei sv] Some by auto
    qed
  qed
qed

theorem topology_preserved_witness:
  "(\<forall>m. tables (fst (example_solver m)) = tables m)
   \<and> map_option tables
       (current_net (snd (run_contingency_analysis example_solver stressed_session ''line'' None)))
       = Some (tables stressed_net)
   \<and> PANDAPOWER_AVAILABLE
       (snd (run_contingency_analysis example_solver stressed_session ''line'' None))"
proof -
  have frame: "\<And>m. tables (fst (example_solver m)) = tables m"
    by (rule example_solver_keeps_tables)
  show ?thesis
    using topology_preserved [OF frame, of stressed_session "''line''" None] frame
    by (simp add: stressed_session_def)
qed

text \<open>
  Claim C10: for every input the call returns a dictionary with a \<open>status\<close> key and
  never lets an exception through: the missing network, an invalid kind and every
  solver failure become a returned value.

  The result of the call is never an exception (\<open>Inl\<close>). Its status is
  \<^verbatim>\<open>"success"\<close>, or \<^verbatim>\<open>"error"\<close> with a message: that of the accessor when no
  network is loaded; the unknown-type message when the list is omitted and the kind is
  not one of the three; the solver's message when the final solve raises (as it is for
  a \<^verbatim>\<open>RuntimeError\<close>, prefixed otherwise).
\<close>

theorem always_returns_status_dictionary:
  "\<exists>d v. fst (run_contingency_analysis sv s ct ei) = Inr d
     \<and> map_of d ''status'' = Some (Val (VStr v))
     \<and> (v = ''success'' \<or> v = ''error'' \<and> (\<exists>m. map_of d ''message'' = Some (Val (VStr m))))
     \<and> (PANDAPOWER_AVAILABLE s \<and> current_net s = None \<longrightarrow>
          d = error_dict
            ''No pandapower network is currently loaded. Please create or load a network first.'')
     \<and> (\<forall>n. PANDAPOWER_AVAILABLE s \<and> current_net s = Some n \<and> ei = None
            \<and> ct \<notin> {''line'', ''trafo'', ''gen''} \<longrightarrow>
          d = error_dict (''Unknown contingency type: '' @ ct))
     \<and> (\<forall>n indices e. PANDAPOWER_AVAILABLE s \<and> current_net s = Some n
            \<and> determine_indices n ct ei = Inr (Inr indices)
            \<and> snd (sv (fst (sv n))) = Some e \<longrightarrow>
          d = (case e of RuntimeError m \<Rightarrow> error_dict m
               | OtherException m \<Rightarrow> error_dict (''Contingency analysis failed: '' @ m)))"
proof (cases "PANDAPOWER_AVAILABLE s")
  case False
  then show ?thesis by (simp add: run_unavailable)
next
  case av: True
  show ?thesis
  proof (cases "current_net s")
    case None
    then show ?thesis using av by (simp add: run_no_network)
  next
    case (Some n)
    show ?thesis
    proof (cases "determine_indices n ct ei")
      case (Inl e)
      then have "fst (run_contingency_analysis sv s ct ei) = handlers (Inl e)"
        using av Some by (simp add: run_contingency_analysis_def get_network_def analysis_def)
      moreover have "ei = None \<Longrightarrow> ct \<notin> {''line'', ''trafo'', ''gen''} \<Longrightarrow> False"
        using Inl by (simp add: determine_indices_def)
      ultimately show ?thesis
        using av Some Inl by (cases e) auto
    next
      case (Inr r)
      show ?thesis
      proof (cases r)
        case (Inl d)
        then have d: "d = error_dict (''Unknown contingency type: '' @ ct)"
          using Inr determine_indices_early_return by blast
        have "fst (run_contingency_analysis sv s ct ei) = Inr d"
          using av Some Inr Inl
          by (simp add: run_contingency_analysis_def get_network_def analysis_def)
        then show ?thesis using d av Some Inr Inl by simp
      next
        case ix: (Inr indices)
        have ix': "determine_indices n ct ei = Inr (Inr indices)" using Inr ix by simp
        have known: "ei = None \<Longrightarrow> ct \<notin> {''line'', ''trafo'', ''gen''} \<Longrightarrow> False"
          using ix' by (simp add: determine_indices_cases)
        show ?thesis
        proof (cases "snd (sv (fst (sv n)))")
          case None
          then show ?thesis
            using run_swept [OF av Some ix', of sv] av Some ix' known by auto
        next
          case (Some e)
          then show ?thesis
            using run_swept [OF av \<open>current_net s = Some n\<close> ix', of sv] av
              \<open>current_net s = Some n\<close> ix' known
            by (cases e) auto
        qed
      qed
    qed
  qed
qed

theorem always_returns_status_dictionary_witness:
  "fst (run_contingency_analysis example_solver empty_session ''line'' None) =
     Inr (error_dict
       ''No pandapower network is currently loaded. Please create or load a network first.'')
   \<and> fst (run_contingency_analysis example_solver example_session ''breaker'' None) =
       Inr (error_dict ''Unknown contingency type: breaker'')
   \<and> fst (run_contingency_analysis example_solver islanded_session ''gen'' None) =
       Inr (error_dict ''Contingency analysis failed: no reference bus'')"
proof -
  have a: "PANDAPOWER_AVAILABLE empty_session \<and> current_net empty_session = None"
    by (simp add: empty_session_def)
  have b: "PANDAPOWER_AVAILABLE example_session \<and> current_net example_session = Some example_net
      \<and> (None :: int list option) = None \<and> ''breaker'' \<notin> {''line'', ''trafo'', ''gen''}"
    by (simp add: example_session_def)
  have c: "PANDAPOWER_AVAILABLE islanded_session \<and> current_net islanded_session = Some islanded_net
      \<and> determine_indices islanded_net ''gen'' None = Inr (Inr [])
      \<and> snd (example_solver (fst (example_solver islanded_net)))
          = Some (OtherException ''no reference bus'')"
    by (simp add: engine_defs example_defs)
  show ?thesis
    using always_returns_status_dictionary [of example_solver empty_session "''line''" None]
      always_returns_status_dictionary [of example_solver example_session "''breaker''" None]
      always_returns_status_dictionary [of example_solver islanded_session "''gen''" None]
      a b c
    by (auto simp del: One_nat_def)
qed

end
